theory Spec2Isabelle
  imports Main "HOL-Library.AList"
begin

section \<open>Values, exceptions and observable events\<close>

text \<open>
  The values that the set_snapshot command puts into the dictionary it writes: strings,
  integers, booleans, lists of strings and nested dictionaries. A Python dictionary is
  an association list in insertion order; \<open>d[k] = v\<close> is \<open>AList.update k v d\<close> (the
  value is replaced in place when the key exists and appended otherwise) and a lookup
  is \<open>map_of d k\<close>.
\<close>

datatype field_value =
    Str string
  | Num int
  | Bool bool
  | StrList "string list"
  | Dict "(string \<times> field_value) list"

type_synonym dict = "(string \<times> field_value) list"

text \<open>
  The exceptions that reach the module level of cli.py. \<open>SystemExit n\<close> is what
  \<open>sys.exit(n)\<close> raises (argparse's \<open>error\<close> raises it with status 2); any other
  exception is \<open>OtherException\<close> with its message.
\<close>

datatype py_exception =
    SilentlyExitError
  | SystemExit nat
  | OtherException string

text \<open>
  What an invocation does to the outside world, in order: the calls into the modules
  that are not part of the sources (the store client, command_utils, breakpoint_utils)
  and the lines it prints.
\<close>

datatype event =
    GetFirebaseRtdbService
  | ValidateDebuggeeId string
  | GetNewBreakpointId string
  | RtdbSet string dict
  | ArgsParserError string
  | UserOutputError string
  | UserOutputNormal string
  | PrintJson dict bool
  | PrintStderr string
  | Traceback string

section \<open>The set_snapshot command (set_snapshot_command.py)\<close>

text \<open>
  Modelled from the spec: breakpoint_utils.parse_and_validate_location is not under
  src/, so the type of the location it returns is taken from section 3 of the spec,
  \<open>{path: string, line: positive integer}\<close>; \<open>location_dict\<close> is that value as
  the dictionary stored under the key \<open>location\<close>.
\<close>

record source_location =
  path :: string
  line :: int

definition location_dict :: "source_location \<Rightarrow> field_value" where
  "location_dict l = Dict [(''path'', Str (path l)), (''line'', Num (line l))]"

text \<open>
  The arguments argparse binds for set_snapshot (\<open>register\<close>, lines 77-89):
  \<open>--condition\<close> is \<open>None\<close> when absent, \<open>--expression\<close> has \<open>action='append'\<close>
  and is \<open>None\<close> when absent.
\<close>

record args =
  debuggee_id :: string
  location :: string
  condition :: "string option"
  expression :: "string list option"
  format :: string

record cli_services =
  account :: string

text \<open>
  The functions \<open>cmd\<close> calls that are not under src/, as parameters: what each
  answers during this invocation (a raised exception is \<open>Inl\<close>).
  \<open>LOCATION_ERROR_MSG\<close> is a constant of breakpoint_utils.
\<close>

record env =
  get_firebase_rtdb_service :: "py_exception + unit"
  validate_debuggee_id :: "string \<Rightarrow> py_exception + unit"
  parse_and_validate_location :: "string \<Rightarrow> source_location option"
  LOCATION_ERROR_MSG :: string
  get_new_breakpoint_id :: "string \<Rightarrow> py_exception + string option"
  rtdb_set :: "string \<Rightarrow> dict \<Rightarrow> py_exception + dict option"
  normalize_breakpoint :: "dict option \<Rightarrow> dict option"

definition CREATE_SUCCESS_MESSAGE :: "string \<Rightarrow> string" where
  "CREATE_SUCCESS_MESSAGE breakpoint_id =
     ''Successfully created snapshot with id: '' @ breakpoint_id"

definition CREATE_FAILED_MESSAGE :: string where
  "CREATE_FAILED_MESSAGE =
     ''An unexpected error occurred while trying to set the  snapshot.''"

text \<open>The magic server value of line 108, \<open>{'.sv': 'timestamp'}\<close>.\<close>

definition server_timestamp :: field_value where
  "server_timestamp = Dict [(''.sv'', Str ''timestamp'')]"

text \<open>
  Lines 103-114: the dictionary \<open>snapshot_data\<close> before the id is known.
  \<open>if args.condition:\<close> and \<open>if args.expression:\<close> are Python truth tests: \<open>None\<close>,
  the empty string and the empty list are false.
\<close>

definition snapshot_data :: "args \<Rightarrow> cli_services \<Rightarrow> source_location \<Rightarrow> dict" where
  "snapshot_data a svc loc =
     (let d0 = [(''location'', location_dict loc), (''userEmail'', Str (account svc))];
          d1 = AList.update ''createTimeUnixMsec'' server_timestamp d0;
          d2 = (case condition a of
                  None \<Rightarrow> d1
                | Some c \<Rightarrow> if c \<noteq> [] then AList.update ''condition'' (Str c) d1 else d1);
          d3 = (case expression a of
                  None \<Rightarrow> d2
                | Some es \<Rightarrow> if es \<noteq> [] then AList.update ''expressions'' (StrList es) d2 else d2)
      in d3)"

text \<open>
  \<open>SetSnapshotCommand.cmd\<close>, lines 91-136. The result is what the call does (returns,
  \<open>Inr ()\<close>, or raises, \<open>Inl\<close>) and the events up to that point.
  \<open>self.args_parser.error(msg)\<close> is argparse's: it prints the usage and the message on
  stderr and raises \<open>SystemExit(2)\<close>, so the \<open>return\<close> of line 101 is never reached.
\<close>

definition cmd :: "env \<Rightarrow> args \<Rightarrow> cli_services \<Rightarrow> (py_exception + unit) \<times> event list" where
  "cmd E a svc =
     (let ev1 = [GetFirebaseRtdbService];
          ev2 = ev1 @ [ValidateDebuggeeId (debuggee_id a)];
          ev3 = ev2 @ [GetNewBreakpointId (debuggee_id a)]
      in
      case get_firebase_rtdb_service E of
        Inl e \<Rightarrow> (Inl e, ev1)
      | Inr _ \<Rightarrow>
      (case validate_debuggee_id E (debuggee_id a) of
        Inl e \<Rightarrow> (Inl e, ev2)
      | Inr _ \<Rightarrow>
      (case parse_and_validate_location E (location a) of
        None \<Rightarrow> (Inl (SystemExit 2), ev2 @ [ArgsParserError (LOCATION_ERROR_MSG E)])
      | Some loc \<Rightarrow>
      (case get_new_breakpoint_id E (debuggee_id a) of
        Inl e \<Rightarrow> (Inl e, ev3)
      | Inr None \<Rightarrow> (Inr (), ev3)
      | Inr (Some breakpoint_id) \<Rightarrow>
          (let data = AList.update ''id'' (Str breakpoint_id) (snapshot_data a svc loc);
               bp_path = ''breakpoints/'' @ debuggee_id a @ ''/active/'' @ breakpoint_id;
               ev4 = ev3 @ [RtdbSet bp_path data]
           in
           case rtdb_set E bp_path data of
             Inl e \<Rightarrow> (Inl e, ev4)
           | Inr bp \<Rightarrow>
           (case normalize_breakpoint E bp of
             None \<Rightarrow> (Inl SilentlyExitError, ev4 @ [UserOutputError CREATE_FAILED_MESSAGE])
           | Some bp' \<Rightarrow>
               if format a = ''json'' \<or> format a = ''pretty-json''
               then (Inr (), ev4 @ [PrintJson bp' (format a = ''pretty-json'')])
               else (Inr (), ev4 @ [UserOutputNormal (CREATE_SUCCESS_MESSAGE breakpoint_id)])))))))"

section \<open>Start-up code (cli.py)\<close>

text \<open>
  What \<open>args_parser.parse_args()\<close> returns: the namespace has the attribute \<open>func\<close>
  exactly when a subcommand was selected (each command's \<open>register\<close> binds it with
  \<open>set_defaults(func=self.cmd)\<close>).
\<close>

record parsed_args =
  func :: "(args \<Rightarrow> cli_services \<Rightarrow> (py_exception + unit) \<times> event list) option"
  command_args :: args

definition MISSING_ARGUMENT_MESSAGE :: string where
  "MISSING_ARGUMENT_MESSAGE =
     ''Missing required argument, please specify --help for more information''"

text \<open>
  \<open>main\<close>, lines 34-68. \<open>parse_args\<close> is the outcome of line 56 (argparse may raise
  \<open>SystemExit\<close> itself) and \<open>CliServices\<close> the constructor of line 65, which is not
  under src/.
\<close>

definition main ::
  "(py_exception + parsed_args) \<Rightarrow> (args \<Rightarrow> py_exception + cli_services)
     \<Rightarrow> (py_exception + unit) \<times> event list" where
  "main parse_args CliServices =
     (case parse_args of
        Inl e \<Rightarrow> (Inl e, [])
      | Inr ns \<Rightarrow>
        (case func ns of
           None \<Rightarrow> (Inl SilentlyExitError, [PrintStderr MISSING_ARGUMENT_MESSAGE])
         | Some f \<Rightarrow>
           (case CliServices (command_args ns) of
              Inl e \<Rightarrow> (Inl e, [])
            | Inr services \<Rightarrow> f (command_args ns) services)))"

text \<open>
  Lines 71-75 and the interpreter's exit: the exit status of the process and the events
  of the run. \<open>SilentlyExitError\<close> is caught and becomes \<open>sys.exit(1)\<close>; a
  \<open>SystemExit n\<close> ends the process with status \<open>n\<close>; an uncaught exception prints a
  traceback and ends it with status 1; a normal return ends it with status 0.
\<close>

definition run_cli ::
  "(py_exception + parsed_args) \<Rightarrow> (args \<Rightarrow> py_exception + cli_services)
     \<Rightarrow> nat \<times> event list" where
  "run_cli parse_args CliServices =
     (case main parse_args CliServices of
        (Inr _, evs) \<Rightarrow> (0, evs)
      | (Inl SilentlyExitError, evs) \<Rightarrow> (1, evs)
      | (Inl (SystemExit n), evs) \<Rightarrow> (n, evs)
      | (Inl (OtherException msg), evs) \<Rightarrow> (1, evs @ [Traceback msg]))"

text \<open>
  An invocation \<open>set_snapshot ...\<close>: argparse selected the subcommand, so \<open>func\<close> is
  the command's \<open>cmd\<close>.
\<close>

definition set_snapshot_invocation :: "env \<Rightarrow> args \<Rightarrow> py_exception + parsed_args" where
  "set_snapshot_invocation E a = Inr \<lparr>func = Some (cmd E), command_args = a\<rparr>"

section \<open>The collaborators that the sources only call\<close>

subsection \<open>The remote store\<close>

text \<open>
  Modelled from the spec: the store client, command_utils.validate_debuggee_id and
  breakpoint_utils.get_new_breakpoint_id are not under src/. Section 4.5 of the spec:
  each handler validates that the debuggee id exists via a store lookup; section 4.2:
  the allocator reads and conditionally writes a counter in the store; section 6:
  \<open>set\<close> writes to the store. Obtaining the client object and printing do not contact
  the store.
\<close>

fun contacts_remote_store :: "event \<Rightarrow> bool" where
  "contacts_remote_store (ValidateDebuggeeId _) = True"
| "contacts_remote_store (GetNewBreakpointId _) = True"
| "contacts_remote_store (RtdbSet _ _) = True"
| "contacts_remote_store _ = False"

text \<open>
  Modelled from the spec: the store client is not under src/. Section 6 of the spec:
  \<open>set(path, value)\<close> is an unconditional overwrite of the value at the path.
  \<open>rtdb_after store evs\<close> is the content of the store, a map from paths to records,
  once the \<open>set\<close> calls among the events have been carried out in order.
\<close>

fun rtdb_after :: "(string \<rightharpoonup> dict) \<Rightarrow> event list \<Rightarrow> (string \<rightharpoonup> dict)" where
  "rtdb_after store [] = store"
| "rtdb_after store (RtdbSet p d # evs) = rtdb_after (store(p \<mapsto> d)) evs"
| "rtdb_after store (_ # evs) = rtdb_after store evs"

subsection \<open>The location parser\<close>

text \<open>
  Modelled from the spec: breakpoint_utils.parse_and_validate_location is not under
  src/. Section 4.1 of the spec: the input is split on the last colon, the prefix must
  be non-empty and the suffix must parse as a positive integer; otherwise the result
  is the invalid sentinel (\<open>None\<close>). An integer is read here as a non-empty run of
  decimal digits.
\<close>

definition digit_of :: "char \<Rightarrow> nat option" where
  "digit_of = map_of
     [(CHR ''0'', 0), (CHR ''1'', 1), (CHR ''2'', 2), (CHR ''3'', 3), (CHR ''4'', 4),
      (CHR ''5'', 5), (CHR ''6'', 6), (CHR ''7'', 7), (CHR ''8'', 8), (CHR ''9'', 9)]"

fun decimal :: "nat \<Rightarrow> string \<Rightarrow> nat option" where
  "decimal acc [] = Some acc"
| "decimal acc (c # cs) =
     (case digit_of c of None \<Rightarrow> None | Some k \<Rightarrow> decimal (10 * acc + k) cs)"

definition parse_int :: "string \<Rightarrow> int option" where
  "parse_int s = (if s = [] then None else map_option int (decimal 0 s))"

definition split_last_colon :: "string \<Rightarrow> (string \<times> string) option" where
  "split_last_colon s =
     (if CHR '':'' \<in> set s
      then Some (rev (tl (dropWhile (\<lambda>c. c \<noteq> CHR '':'') (rev s))),
                 rev (takeWhile (\<lambda>c. c \<noteq> CHR '':'') (rev s)))
      else None)"

definition spec_parse_and_validate_location :: "string \<Rightarrow> source_location option" where
  "spec_parse_and_validate_location s =
     (case split_last_colon s of
        None \<Rightarrow> None
      | Some (p, suffix) \<Rightarrow>
          if p = [] then None
          else (case parse_int suffix of
                  None \<Rightarrow> None
                | Some n \<Rightarrow> if 0 < n then Some \<lparr>path = p, line = n\<rparr> else None))"

subsection \<open>The breakpoint normalizer\<close>

text \<open>
  Modelled from the spec: breakpoint_utils.normalize_breakpoint is not under src/.
  Section 4.3 of the spec: the input is a raw record, or nil, and the namespace it was
  read from. Nil gives "not found"; a record without the required \<open>id\<close> gives
  "malformed"; any other record gives the canonical record, in which \<open>isFinalState\<close>
  is set according to the namespace, each optional field that is absent is present
  with its empty value, and every field that holds the server-timestamp sentinel
  holds the concrete time instead. The spec names neither the optional fields nor the
  time, so both are parameters: \<open>defaults\<close> lists the optional fields with their
  empty values and \<open>t\<close> is the time the store resolved the sentinel to.
\<close>

datatype store_namespace = ActiveNamespace | FinalNamespace

datatype normalized = NotFound | Malformed | Canonical dict

definition resolve_server_value :: "int \<Rightarrow> field_value \<Rightarrow> field_value" where
  "resolve_server_value t v = (if v = server_timestamp then Num t else v)"

definition default_field :: "string \<times> field_value \<Rightarrow> dict \<Rightarrow> dict" where
  "default_field kv d = (case map_of d (fst kv) of None \<Rightarrow> d @ [kv] | Some _ \<Rightarrow> d)"

definition spec_normalize_breakpoint ::
  "int \<Rightarrow> dict \<Rightarrow> store_namespace \<Rightarrow> dict option \<Rightarrow> normalized" where
  "spec_normalize_breakpoint t defaults ns raw =
     (case raw of
        None \<Rightarrow> NotFound
      | Some d \<Rightarrow>
          if map_of d ''id'' = None then Malformed
          else Canonical
                 (map (\<lambda>(k, v). (k, resolve_server_value t v))
                    (fold default_field defaults
                       (AList.update ''isFinalState'' (Bool (ns = FinalNamespace)) d))))"

subsection \<open>The breakpoint id allocator\<close>

text \<open>
  Modelled from the spec: breakpoint_utils.get_new_breakpoint_id and the store client
  are not under src/. Section 6 of the spec: \<open>set_if_absent_or_matches(path, expected,
  new)\<close> writes \<open>new\<close> when the path is absent or holds \<open>expected\<close>, and says
  whether it wrote. Here the path is the debuggee's counter path and its content is
  the last sequence number, if any.
\<close>

definition set_if_absent_or_matches ::
  "nat option \<Rightarrow> nat option \<Rightarrow> nat \<Rightarrow> bool \<times> nat option" where
  "set_if_absent_or_matches counter expected new =
     (if counter = None \<or> counter = expected then (True, Some new) else (False, counter))"

text \<open>
  Modelled from the spec: section 4.2 proposes \<open>candidate = prefix + next_sequence\<close>;
  the sequence number is written in decimal, and an absent counter reads as 0.
\<close>

definition digit_char :: "nat \<Rightarrow> char" where
  "digit_char k = ''0123456789'' ! k"

fun decimal_string :: "nat \<Rightarrow> string" where
  "decimal_string n =
     (if n < 10 then [digit_char n] else decimal_string (n div 10) @ [digit_char (n mod 10)])"

declare decimal_string.simps [simp del]

definition candidate :: "string \<Rightarrow> nat \<Rightarrow> string" where
  "candidate prefix n = prefix @ decimal_string n"

definition sequence_of :: "nat option \<Rightarrow> nat" where
  "sequence_of c = (case c of None \<Rightarrow> 0 | Some n \<Rightarrow> n)"

text \<open>
  Modelled from the spec: one allocator of section 4.2, between its store operations.
  \<open>Ready k\<close> is about to read the counter with \<open>k\<close> attempts left; \<open>Holding
  expected k\<close> has read \<open>expected\<close> and is about to write the next sequence number
  with the conditional write; \<open>Returned r\<close> has returned the id \<open>r\<close>, or nil. A
  conflict, or a store that cannot be reached (section 7), costs the attempt; when no
  attempt is left the allocator returns nil. \<open>allocator_step\<close> is one store
  operation of one allocator, on the counter as it is at that moment.
\<close>

datatype allocator = Ready nat | Holding "nat option" nat | Returned "string option"

definition after_failure :: "nat \<Rightarrow> allocator" where
  "after_failure k = (if k \<le> 1 then Returned None else Ready (k - 1))"

definition allocator_step ::
  "string \<Rightarrow> bool \<Rightarrow> allocator \<Rightarrow> nat option \<Rightarrow> allocator \<times> nat option" where
  "allocator_step prefix reachable p counter =
     (case p of
        Returned r \<Rightarrow> (Returned r, counter)
      | Ready k \<Rightarrow>
          if k = 0 then (Returned None, counter)
          else if \<not> reachable then (after_failure k, counter)
          else (Holding counter k, counter)
      | Holding expected k \<Rightarrow>
          if \<not> reachable then (after_failure k, counter)
          else (let next_sequence = sequence_of expected + 1 in
                case set_if_absent_or_matches counter expected next_sequence of
                  (True, counter') \<Rightarrow>
                    (Returned (Some (candidate prefix next_sequence)), counter')
                | (False, counter') \<Rightarrow> (after_failure k, counter')))"

text \<open>
  Modelled from the spec: section 5, the allocators are separate processes that share
  only the store. A schedule lists, in the order the store serves them, which
  allocator performs its next store operation and whether the store was reachable for
  it; \<open>race\<close> runs a schedule from a counter and the allocators' states.
\<close>

definition race_step ::
  "string \<Rightarrow> nat \<times> bool \<Rightarrow> nat option \<times> allocator list
     \<Rightarrow> nat option \<times> allocator list" where
  "race_step prefix ev s =
     (case ev of (i, reachable) \<Rightarrow>
      case s of (counter, ps) \<Rightarrow>
        if i < length ps
        then (case allocator_step prefix reachable (ps ! i) counter of
                (p', counter') \<Rightarrow> (counter', ps[i := p']))
        else s)"

definition race ::
  "string \<Rightarrow> (nat \<times> bool) list \<Rightarrow> nat option \<times> allocator list
     \<Rightarrow> nat option \<times> allocator list" where
  "race prefix schedule s = fold (race_step prefix) schedule s"

text \<open>
  What holds of the counter and the allocators throughout a race that started at the
  counter \<open>c0\<close>: the counter never falls, every id returned is a candidate whose
  sequence number lies above \<open>c0\<close> and at most at the counter, and no two allocators
  have returned the same id.
\<close>

definition alloc_inv :: "string \<Rightarrow> nat option \<Rightarrow> nat option \<times> allocator list \<Rightarrow> bool" where
  "alloc_inv prefix c0 s =
     (case s of (c, ps) \<Rightarrow>
        sequence_of c0 \<le> sequence_of c
        \<and> (\<forall>i<length ps. \<forall>a. ps ! i = Returned (Some a) \<longrightarrow>
              (\<exists>n. a = candidate prefix n \<and> sequence_of c0 < n \<and> n \<le> sequence_of c))
        \<and> (\<forall>i<length ps. \<forall>j<length ps. \<forall>a.
              i \<noteq> j \<and> ps ! i = Returned (Some a) \<longrightarrow> ps ! j \<noteq> Returned (Some a)))"

section \<open>A concrete environment\<close>

text \<open>
  An environment in which the store is reachable and the debuggee exists: the parser
  is the one of section 4.1, the allocator answers \<open>new_id\<close>, \<open>set\<close> returns the
  record it wrote, and the normalizer answers what \<open>normalized_as\<close> gives.
\<close>

definition sample_env :: "string option \<Rightarrow> (dict option \<Rightarrow> dict option) \<Rightarrow> env" where
  "sample_env new_id normalized_as =
     \<lparr>get_firebase_rtdb_service = Inr (),
      validate_debuggee_id = (\<lambda>_. Inr ()),
      parse_and_validate_location = spec_parse_and_validate_location,
      LOCATION_ERROR_MSG = ''Location must be in the form FILE:LINE'',
      get_new_breakpoint_id = (\<lambda>_. Inr new_id),
      rtdb_set = (\<lambda>_ d. Inr (Some d)),
      normalize_breakpoint = normalized_as\<rparr>"

definition sample_args :: "string \<Rightarrow> args" where
  "sample_args loc =
     \<lparr>debuggee_id = ''d-1'', location = loc, condition = Some ''x>5'',
      expression = None, format = ''default''\<rparr>"

definition sample_cli_services :: cli_services where
  "sample_cli_services = \<lparr>account = ''dev@example.com''\<rparr>"

definition sample_CliServices :: "args \<Rightarrow> py_exception + cli_services" where
  "sample_CliServices a = Inr sample_cli_services"

text \<open>The record that \<open>set_snapshot main.py:42 --condition "x>5"\<close> writes for the id b-1.\<close>

definition sample_record :: dict where
  "sample_record =
     [(''location'', Dict [(''path'', Str ''main.py''), (''line'', Num 42)]),
      (''userEmail'', Str ''dev@example.com''),
      (''createTimeUnixMsec'', Dict [(''.sv'', Str ''timestamp'')]),
      (''condition'', Str ''x>5''),
      (''id'', Str ''b-1'')]"

section \<open>Properties of the written record\<close>

lemmas run_defs = cmd_def run_cli_def main_def set_snapshot_invocation_def Let_def

lemmas sample_defs = sample_env_def sample_args_def sample_CliServices_def
  sample_cli_services_def sample_record_def spec_parse_and_validate_location_def
  split_last_colon_def parse_int_def digit_of_def

lemmas data_defs = snapshot_data_def location_dict_def server_timestamp_def

lemma map_of_snapshot_data:
  "map_of (snapshot_data a svc loc) =
     [''location'' \<mapsto> location_dict loc, ''userEmail'' \<mapsto> Str (account svc),
      ''createTimeUnixMsec'' \<mapsto> server_timestamp]
     ++ (case condition a of None \<Rightarrow> Map.empty
         | Some c \<Rightarrow> if c \<noteq> [] then [''condition'' \<mapsto> Str c] else Map.empty)
     ++ (case expression a of None \<Rightarrow> Map.empty
         | Some es \<Rightarrow> if es \<noteq> [] then [''expressions'' \<mapsto> StrList es] else Map.empty)"
  by (auto simp: snapshot_data_def Let_def update_conv' fun_eq_iff map_add_def
      split: option.splits)

text \<open>Every field of the record of line 124, key by key.\<close>

lemma written_record_fields:
  "map_of (AList.update ''id'' (Str bid) (snapshot_data a svc loc)) k =
     (if k = ''id'' then Some (Str bid)
      else if k = ''expressions'' then
        (case expression a of None \<Rightarrow> None
         | Some es \<Rightarrow> if es = [] then None else Some (StrList es))
      else if k = ''condition'' then
        (case condition a of None \<Rightarrow> None
         | Some c \<Rightarrow> if c = [] then None else Some (Str c))
      else if k = ''createTimeUnixMsec'' then Some server_timestamp
      else if k = ''userEmail'' then Some (Str (account svc))
      else if k = ''location'' then Some (location_dict loc)
      else None)"
  by (simp add: update_conv' map_of_snapshot_data map_add_def split: option.splits)

text \<open>
  The only write \<open>cmd\<close> issues is the one of line 124: it happens after the location
  was parsed and an id was allocated, at the active path of that id, with the record
  of lines 103-122.
\<close>

lemma cmd_RtdbSet:
  assumes "RtdbSet p d \<in> set (snd (cmd E a svc))"
  shows "\<exists>loc bid. parse_and_validate_location E (location a) = Some loc
           \<and> get_new_breakpoint_id E (debuggee_id a) = Inr (Some bid)
           \<and> p = ''breakpoints/'' @ debuggee_id a @ ''/active/'' @ bid
           \<and> d = AList.update ''id'' (Str bid) (snapshot_data a svc loc)"
  using assms
  by (auto simp: cmd_def Let_def split: sum.splits option.splits if_splits)

lemma sample_run:
  "cmd (sample_env (Some ''b-1'') (\<lambda>bp. bp)) (sample_args ''main.py:42'') sample_cli_services
     = (Inr (),
        [GetFirebaseRtdbService, ValidateDebuggeeId ''d-1'', GetNewBreakpointId ''d-1'',
         RtdbSet ''breakpoints/d-1/active/b-1'' sample_record,
         UserOutputNormal ''Successfully created snapshot with id: b-1''])"
  by (simp add: run_defs sample_defs data_defs CREATE_SUCCESS_MESSAGE_def)

section \<open>Failure paths of set_snapshot\<close>

text \<open>
  When the allocator answers \<open>None\<close>, line 120 returns from \<open>cmd\<close>: nothing is
  written or printed by \<open>cmd\<close>, \<open>main\<close> returns, and the exit status is 0.
\<close>

lemma allocation_failure_returns:
  assumes "get_firebase_rtdb_service E = Inr ()"
    and "validate_debuggee_id E (debuggee_id a) = Inr ()"
    and "parse_and_validate_location E (location a) = Some loc"
    and "get_new_breakpoint_id E (debuggee_id a) = Inr None"
    and "CliServices a = Inr svc"
  shows "run_cli (set_snapshot_invocation E a) CliServices =
           (0, [GetFirebaseRtdbService, ValidateDebuggeeId (debuggee_id a),
                GetNewBreakpointId (debuggee_id a)])"
  using assms by (simp add: run_defs)

text \<open>
  C1 (the code departs from the claim). The claim: when get_new_breakpoint_id returns
  the nil sentinel, the command aborts with a user-facing message and the process
  exits with a non-zero status. The code at that input: \<open>set_snapshot main.py:42\<close>
  for an existing debuggee, with an allocator that answers \<open>None\<close>, ends with exit
  status 0, and \<open>cmd\<close> itself prints nothing; the sibling failure path of lines
  127-129 prints a message and raises \<open>SilentlyExitError\<close>.
\<close>

theorem allocation_failure_exits_zero:
  "run_cli (set_snapshot_invocation (sample_env None (\<lambda>bp. bp)) (sample_args ''main.py:42''))
       sample_CliServices
     = (0, [GetFirebaseRtdbService, ValidateDebuggeeId ''d-1'', GetNewBreakpointId ''d-1''])"
  by (simp add: run_defs sample_defs)

text \<open>
  C2 (amended). When the debuggee id is valid and the location does not parse, the
  command reports the location error through argparse and ends with
  \<open>SystemExit(2)\<close>; no id is allocated and nothing is written. The only call that
  reaches the store is the validation of the debuggee id, which line 95 makes before
  the location is parsed.
\<close>

theorem invalid_location_aborts_after_validation:
  assumes "get_firebase_rtdb_service E = Inr ()"
    and "validate_debuggee_id E (debuggee_id a) = Inr ()"
    and "parse_and_validate_location E (location a) = None"
  shows "cmd E a svc =
           (Inl (SystemExit 2),
            [GetFirebaseRtdbService, ValidateDebuggeeId (debuggee_id a),
             ArgsParserError (LOCATION_ERROR_MSG E)])
       \<and> filter contacts_remote_store (snd (cmd E a svc))
           = [ValidateDebuggeeId (debuggee_id a)]"
  using assms by (simp add: cmd_def)

theorem invalid_location_aborts_after_validation_witness:
  "cmd (sample_env (Some ''b-1'') (\<lambda>bp. bp)) (sample_args ''nofile'') sample_cli_services =
     (Inl (SystemExit 2),
      [GetFirebaseRtdbService, ValidateDebuggeeId ''d-1'',
       ArgsParserError ''Location must be in the form FILE:LINE''])
   \<and> filter contacts_remote_store
        (snd (cmd (sample_env (Some ''b-1'') (\<lambda>bp. bp)) (sample_args ''nofile'')
                sample_cli_services))
       = [ValidateDebuggeeId ''d-1'']"
  using invalid_location_aborts_after_validation
    [of "sample_env (Some ''b-1'') (\<lambda>bp. bp)" "sample_args ''nofile''" sample_cli_services]
  by (simp add: sample_defs)

text \<open>
  C2 as stated fails: for the location \<open>nofile\<close> the parser answers the invalid
  sentinel, and the invocation has already called the store to validate the debuggee.
\<close>

theorem invalid_location_contacts_store:
  "parse_and_validate_location (sample_env (Some ''b-1'') (\<lambda>bp. bp))
       (location (sample_args ''nofile'')) = None
   \<and> list_ex contacts_remote_store
        (snd (cmd (sample_env (Some ''b-1'') (\<lambda>bp. bp)) (sample_args ''nofile'')
                sample_cli_services))"
  by (simp add: run_defs sample_defs)

text \<open>
  C5. When the write of line 124 returns and normalize_breakpoint answers \<open>None\<close> for
  what it returned, the command prints CREATE_FAILED_MESSAGE as an error and the
  process ends with exit status 1.
\<close>

theorem normalization_failure_is_reported:
  assumes "get_firebase_rtdb_service E = Inr ()"
    and "validate_debuggee_id E (debuggee_id a) = Inr ()"
    and "parse_and_validate_location E (location a) = Some loc"
    and "get_new_breakpoint_id E (debuggee_id a) = Inr (Some bid)"
    and "CliServices a = Inr svc"
    and "rtdb_set E (''breakpoints/'' @ debuggee_id a @ ''/active/'' @ bid)
           (AList.update ''id'' (Str bid) (snapshot_data a svc loc)) = Inr bp"
    and "normalize_breakpoint E bp = None"
  shows "run_cli (set_snapshot_invocation E a) CliServices =
           (1, [GetFirebaseRtdbService, ValidateDebuggeeId (debuggee_id a),
                GetNewBreakpointId (debuggee_id a),
                RtdbSet (''breakpoints/'' @ debuggee_id a @ ''/active/'' @ bid)
                  (AList.update ''id'' (Str bid) (snapshot_data a svc loc)),
                UserOutputError CREATE_FAILED_MESSAGE])"
  using assms by (simp add: run_defs)

theorem normalization_failure_is_reported_witness:
  "run_cli (set_snapshot_invocation (sample_env (Some ''b-1'') (\<lambda>bp. None))
              (sample_args ''main.py:42'')) sample_CliServices =
     (1, [GetFirebaseRtdbService, ValidateDebuggeeId ''d-1'', GetNewBreakpointId ''d-1'',
          RtdbSet ''breakpoints/d-1/active/b-1'' sample_record,
          UserOutputError CREATE_FAILED_MESSAGE])"
  using normalization_failure_is_reported
    [of "sample_env (Some ''b-1'') (\<lambda>bp. None)" "sample_args ''main.py:42''"
        "\<lparr>path = ''main.py'', line = 42\<rparr>" "''b-1''" sample_CliServices
        sample_cli_services "Some sample_record"]
  by (simp add: sample_defs data_defs)

section \<open>Exit status of the program\<close>

text \<open>
  C6. When argument parsing binds no \<open>func\<close>, the program prints the message of lines
  59-61 on stderr and ends with exit status 1; when the selected command returns
  normally, the program ends with exit status 0.
\<close>

theorem exit_status_of_main:
  "(func ns = None \<longrightarrow>
      run_cli (Inr ns) CliServices = (1, [PrintStderr MISSING_ARGUMENT_MESSAGE]))
   \<and> (\<forall>f svc evs. func ns = Some f \<and> CliServices (command_args ns) = Inr svc
          \<and> f (command_args ns) svc = (Inr (), evs)
        \<longrightarrow> run_cli (Inr ns) CliServices = (0, evs))"
  by (simp add: run_cli_def main_def)

theorem exit_status_of_main_witness:
  "run_cli (Inr \<lparr>func = None, command_args = sample_args ''main.py:42''\<rparr>) sample_CliServices
     = (1, [PrintStderr MISSING_ARGUMENT_MESSAGE])
   \<and> run_cli (Inr \<lparr>func = Some (cmd (sample_env (Some ''b-1'') (\<lambda>bp. bp))),
                    command_args = sample_args ''main.py:42''\<rparr>) sample_CliServices
     = (0, [GetFirebaseRtdbService, ValidateDebuggeeId ''d-1'', GetNewBreakpointId ''d-1'',
            RtdbSet ''breakpoints/d-1/active/b-1'' sample_record,
            UserOutputNormal ''Successfully created snapshot with id: b-1''])"
  using exit_status_of_main
    [of "\<lparr>func = None, command_args = sample_args ''main.py:42''\<rparr>" sample_CliServices]
    exit_status_of_main
    [of "\<lparr>func = Some (cmd (sample_env (Some ''b-1'') (\<lambda>bp. bp))),
          command_args = sample_args ''main.py:42''\<rparr>" sample_CliServices]
    sample_run
  by (simp add: sample_CliServices_def)

section \<open>The record written on creation\<close>

text \<open>
  C3 (amended). Running \<open>set_snapshot main.py:42 --condition "x>5"\<close> against an empty
  store, for a valid debuggee and an allocator that answers the id \<open>bid\<close>, leaves the
  store with exactly one record, at \<open>breakpoints/{debuggeeId}/active/{bid}\<close>; its
  location is \<open>{path: "main.py", line: 42}\<close>, its condition is \<open>"x>5"\<close>, its id is
  \<open>bid\<close>, and it has no \<open>expressions\<close> key.
\<close>

theorem set_snapshot_creates_one_active_record:
  assumes "get_firebase_rtdb_service E = Inr ()"
    and "validate_debuggee_id E (debuggee_id a) = Inr ()"
    and "location a = ''main.py:42''"
    and "parse_and_validate_location E ''main.py:42'' = Some \<lparr>path = ''main.py'', line = 42\<rparr>"
    and "condition a = Some ''x>5''"
    and "expression a = None"
    and "get_new_breakpoint_id E (debuggee_id a) = Inr (Some bid)"
  shows "\<exists>d. rtdb_after Map.empty (snd (cmd E a svc))
               = [''breakpoints/'' @ debuggee_id a @ ''/active/'' @ bid \<mapsto> d]
           \<and> map_of d ''location'' = Some (Dict [(''path'', Str ''main.py''), (''line'', Num 42)])
           \<and> map_of d ''condition'' = Some (Str ''x>5'')
           \<and> map_of d ''expressions'' = None
           \<and> map_of d ''id'' = Some (Str bid)"
proof -
  let ?d = "AList.update ''id'' (Str bid) (snapshot_data a svc \<lparr>path = ''main.py'', line = 42\<rparr>)"
  have "rtdb_after Map.empty (snd (cmd E a svc))
               = [''breakpoints/'' @ debuggee_id a @ ''/active/'' @ bid \<mapsto> ?d]"
    using assms by (simp add: cmd_def Let_def split: sum.splits option.splits)
  moreover have "map_of ?d ''location''
      = Some (Dict [(''path'', Str ''main.py''), (''line'', Num 42)])"
    unfolding written_record_fields by (simp add: location_dict_def)
  moreover have "map_of ?d ''condition'' = Some (Str ''x>5'')"
    unfolding written_record_fields using assms by simp
  moreover have "map_of ?d ''expressions'' = None"
    unfolding written_record_fields using assms by simp
  moreover have "map_of ?d ''id'' = Some (Str bid)"
    unfolding written_record_fields by simp
  ultimately show ?thesis by blast
qed

theorem set_snapshot_creates_one_active_record_witness:
  "\<exists>d. rtdb_after Map.empty
          (snd (cmd (sample_env (Some ''b-1'') (\<lambda>bp. bp)) (sample_args ''main.py:42'')
                  sample_cli_services))
         = [''breakpoints/d-1/active/b-1'' \<mapsto> d]
     \<and> map_of d ''location'' = Some (Dict [(''path'', Str ''main.py''), (''line'', Num 42)])
     \<and> map_of d ''condition'' = Some (Str ''x>5'')
     \<and> map_of d ''expressions'' = None
     \<and> map_of d ''id'' = Some (Str ''b-1'')"
  using set_snapshot_creates_one_active_record
    [of "sample_env (Some ''b-1'') (\<lambda>bp. bp)" "sample_args ''main.py:42''" "''b-1''"
        sample_cli_services]
  by (simp add: sample_defs)

text \<open>
  C3 as stated fails: in that run the stored record has no \<open>expressions\<close> field at
  all, so the field is not the empty sequence.
\<close>

theorem stored_record_has_no_expressions_key:
  "map_option (\<lambda>d. (map_of d ''expressions'', map_of d ''expressions'' = Some (StrList [])))
     (rtdb_after Map.empty
        (snd (cmd (sample_env (Some ''b-1'') (\<lambda>bp. bp)) (sample_args ''main.py:42'')
                sample_cli_services))
        ''breakpoints/d-1/active/b-1'')
   = Some (None, False)"
  by (simp add: run_defs sample_defs data_defs)

text \<open>
  C4. In every record the command writes, \<open>createTimeUnixMsec\<close> is the
  server-timestamp sentinel, and no other field of the record is the sentinel.
\<close>

theorem create_time_is_server_timestamp:
  assumes "RtdbSet p d \<in> set (snd (cmd E a svc))"
  shows "map_of d ''createTimeUnixMsec'' = Some server_timestamp
       \<and> (\<forall>k. k \<noteq> ''createTimeUnixMsec'' \<longrightarrow> map_of d k \<noteq> Some server_timestamp)"
proof -
  from cmd_RtdbSet [OF assms] obtain loc bid
    where d: "d = AList.update ''id'' (Str bid) (snapshot_data a svc loc)"
    by blast
  show ?thesis
    unfolding d written_record_fields
    by (simp add: server_timestamp_def location_dict_def split: option.splits)
qed

theorem create_time_is_server_timestamp_witness:
  "RtdbSet ''breakpoints/d-1/active/b-1'' sample_record
     \<in> set (snd (cmd (sample_env (Some ''b-1'') (\<lambda>bp. bp)) (sample_args ''main.py:42'')
                  sample_cli_services))
   \<and> map_of sample_record ''createTimeUnixMsec'' = Some server_timestamp
   \<and> map_of sample_record ''location'' \<noteq> Some server_timestamp
   \<and> map_of sample_record ''id'' \<noteq> Some server_timestamp"
proof -
  have run: "RtdbSet ''breakpoints/d-1/active/b-1'' sample_record
     \<in> set (snd (cmd (sample_env (Some ''b-1'') (\<lambda>bp. bp)) (sample_args ''main.py:42'')
                  sample_cli_services))"
    by (simp add: sample_run)
  from create_time_is_server_timestamp [OF run] run show ?thesis
    by simp
qed

text \<open>
  C10. In the record the command writes, the key \<open>condition\<close> is present exactly when
  a non-empty condition was given (an empty one is dropped), and the key
  \<open>expressions\<close> is present exactly when at least one expression was given; without
  expressions the key is absent, not an empty list.
\<close>

theorem optional_keys_of_written_record:
  assumes "RtdbSet p d \<in> set (snd (cmd E a svc))"
  shows "(''condition'' \<in> dom (map_of d) \<longleftrightarrow> (\<exists>c. condition a = Some c \<and> c \<noteq> []))
       \<and> (''expressions'' \<in> dom (map_of d) \<longleftrightarrow> (\<exists>es. expression a = Some es \<and> es \<noteq> []))
       \<and> map_of d ''condition'' =
            (case condition a of None \<Rightarrow> None
             | Some c \<Rightarrow> if c = [] then None else Some (Str c))
       \<and> map_of d ''expressions'' =
            (case expression a of None \<Rightarrow> None
             | Some es \<Rightarrow> if es = [] then None else Some (StrList es))"
proof -
  from cmd_RtdbSet [OF assms] obtain loc bid
    where d: "d = AList.update ''id'' (Str bid) (snapshot_data a svc loc)"
    by blast
  show ?thesis
    unfolding d dom_def written_record_fields
    by (simp split: option.splits)
qed

theorem optional_keys_of_written_record_witness:
  "RtdbSet ''breakpoints/d-1/active/b-1'' sample_record
     \<in> set (snd (cmd (sample_env (Some ''b-1'') (\<lambda>bp. bp)) (sample_args ''main.py:42'')
                  sample_cli_services))
   \<and> ''condition'' \<in> dom (map_of sample_record)
   \<and> ''expressions'' \<notin> dom (map_of sample_record)
   \<and> map_of sample_record ''condition'' = Some (Str ''x>5'')
   \<and> map_of sample_record ''expressions'' = None"
proof -
  have run: "RtdbSet ''breakpoints/d-1/active/b-1'' sample_record
     \<in> set (snd (cmd (sample_env (Some ''b-1'') (\<lambda>bp. bp)) (sample_args ''main.py:42'')
                  sample_cli_services))"
    by (simp add: sample_run)
  from optional_keys_of_written_record [OF run] run show ?thesis
    by (simp add: sample_args_def)
qed

text \<open>
  The success path, lines 131-136: once the record is written and normalized, the
  command prints the normalized record as JSON for the formats \<open>json\<close> and
  \<open>pretty-json\<close> (pretty-printed for the latter only), the success message with the
  new id for any other format, and returns.
\<close>

theorem success_output:
  assumes "get_firebase_rtdb_service E = Inr ()"
    and "validate_debuggee_id E (debuggee_id a) = Inr ()"
    and "parse_and_validate_location E (location a) = Some loc"
    and "get_new_breakpoint_id E (debuggee_id a) = Inr (Some bid)"
    and "rtdb_set E (''breakpoints/'' @ debuggee_id a @ ''/active/'' @ bid)
           (AList.update ''id'' (Str bid) (snapshot_data a svc loc)) = Inr bp"
    and "normalize_breakpoint E bp = Some bp'"
  shows "cmd E a svc =
           (Inr (),
            [GetFirebaseRtdbService, ValidateDebuggeeId (debuggee_id a),
             GetNewBreakpointId (debuggee_id a),
             RtdbSet (''breakpoints/'' @ debuggee_id a @ ''/active/'' @ bid)
               (AList.update ''id'' (Str bid) (snapshot_data a svc loc)),
             if format a = ''json'' \<or> format a = ''pretty-json''
             then PrintJson bp' (format a = ''pretty-json'')
             else UserOutputNormal (CREATE_SUCCESS_MESSAGE bid)])"
  using assms by (simp add: cmd_def)

theorem success_output_witness:
  "cmd (sample_env (Some ''b-1'') (\<lambda>bp. bp))
       ((sample_args ''main.py:42'')\<lparr>format := ''pretty-json''\<rparr>) sample_cli_services =
     (Inr (),
      [GetFirebaseRtdbService, ValidateDebuggeeId ''d-1'', GetNewBreakpointId ''d-1'',
       RtdbSet ''breakpoints/d-1/active/b-1'' sample_record,
       PrintJson sample_record True])"
  using success_output
    [of "sample_env (Some ''b-1'') (\<lambda>bp. bp)"
        "(sample_args ''main.py:42'')\<lparr>format := ''pretty-json''\<rparr>"
        "\<lparr>path = ''main.py'', line = 42\<rparr>" "''b-1''" sample_cli_services
        "Some sample_record" sample_record]
  by (simp add: sample_defs data_defs)

section \<open>The location parser of section 4.1\<close>

lemma split_last_colon_append:
  assumes "CHR '':'' \<notin> set d"
  shows "split_last_colon (p @ CHR '':'' # d) = Some (p, d)"
proof -
  let ?P = "\<lambda>c. c \<noteq> CHR '':''"
  have all: "\<And>c. c \<in> set (rev d) \<Longrightarrow> ?P c"
    using assms by auto
  have "takeWhile ?P (rev d @ CHR '':'' # rev p) = rev d @ takeWhile ?P (CHR '':'' # rev p)"
    by (rule takeWhile_append2) (rule all)
  moreover have "dropWhile ?P (rev d @ CHR '':'' # rev p) = dropWhile ?P (CHR '':'' # rev p)"
    by (rule dropWhile_append2) (rule all)
  ultimately show ?thesis
    by (simp add: split_last_colon_def)
qed

lemma split_last_colon_Some:
  assumes "split_last_colon s = Some (p, d)"
  shows "s = p @ CHR '':'' # d \<and> CHR '':'' \<notin> set d"
proof -
  let ?P = "\<lambda>c. c \<noteq> CHR '':''"
  from assms have mem: "CHR '':'' \<in> set (rev s)"
    and p: "p = rev (tl (dropWhile ?P (rev s)))"
    and d: "d = rev (takeWhile ?P (rev s))"
    by (auto simp: split_last_colon_def split: if_splits)
  from mem have "dropWhile ?P (rev s) \<noteq> []"
    by (auto simp: dropWhile_eq_Nil_conv)
  then have "dropWhile ?P (rev s) = CHR '':'' # tl (dropWhile ?P (rev s))"
    using hd_dropWhile [of ?P "rev s"] by (cases "dropWhile ?P (rev s)") auto
  then have "rev s = takeWhile ?P (rev s) @ CHR '':'' # tl (dropWhile ?P (rev s))"
    using takeWhile_dropWhile_id [of ?P "rev s"] by simp
  then have "rev (rev s) = rev (takeWhile ?P (rev s) @ CHR '':'' # tl (dropWhile ?P (rev s)))"
    by simp
  then have "s = p @ CHR '':'' # d"
    by (simp add: p d)
  moreover have "CHR '':'' \<notin> set d"
    unfolding d using set_takeWhileD [of "CHR '':''" ?P "rev s"] by auto
  ultimately show ?thesis by simp
qed

text \<open>
  C8. The parser of section 4.1 accepts exactly the strings \<open>path:digits\<close> whose last
  colon separates a non-empty path from a positive integer, and returns that path and
  that integer; as a function it has one result per input. \<open>main.py:10\<close> gives
  \<open>{path: "main.py", line: 10}\<close>; \<open>nofile\<close> and \<open>main.py:0\<close> give the invalid
  sentinel.
\<close>

theorem location_parser_contract:
  "(spec_parse_and_validate_location s = Some loc \<longleftrightarrow>
      (\<exists>d. s = path loc @ CHR '':'' # d \<and> CHR '':'' \<notin> set d \<and> path loc \<noteq> []
           \<and> parse_int d = Some (line loc) \<and> 0 < line loc))
   \<and> spec_parse_and_validate_location ''main.py:10'' = Some \<lparr>path = ''main.py'', line = 10\<rparr>
   \<and> spec_parse_and_validate_location ''nofile'' = None
   \<and> spec_parse_and_validate_location ''main.py:0'' = None"
proof (intro conjI iffI)
  assume "spec_parse_and_validate_location s = Some loc"
  then obtain p d n where sp: "split_last_colon s = Some (p, d)" and "p \<noteq> []"
    and "parse_int d = Some n" and "0 < n" and "loc = \<lparr>path = p, line = n\<rparr>"
    by (auto simp: spec_parse_and_validate_location_def split: option.splits if_splits)
  with split_last_colon_Some [OF sp]
  show "\<exists>d. s = path loc @ CHR '':'' # d \<and> CHR '':'' \<notin> set d \<and> path loc \<noteq> []
           \<and> parse_int d = Some (line loc) \<and> 0 < line loc"
    by auto
next
  assume "\<exists>d. s = path loc @ CHR '':'' # d \<and> CHR '':'' \<notin> set d \<and> path loc \<noteq> []
           \<and> parse_int d = Some (line loc) \<and> 0 < line loc"
  then obtain d where "s = path loc @ CHR '':'' # d" "CHR '':'' \<notin> set d" "path loc \<noteq> []"
    "parse_int d = Some (line loc)" "0 < line loc"
    by blast
  then show "spec_parse_and_validate_location s = Some loc"
    by (simp add: spec_parse_and_validate_location_def split_last_colon_append)
qed (simp_all add: spec_parse_and_validate_location_def split_last_colon_def parse_int_def
    digit_of_def)

theorem location_parser_contract_witness:
  "spec_parse_and_validate_location ''C:/src/main.py:7'' = Some \<lparr>path = ''C:/src/main.py'', line = 7\<rparr>
   \<and> spec_parse_and_validate_location ''main.py:10'' = Some \<lparr>path = ''main.py'', line = 10\<rparr>
   \<and> spec_parse_and_validate_location ''nofile'' = None
   \<and> spec_parse_and_validate_location ''main.py:0'' = None"
proof -
  have "\<exists>d. ''C:/src/main.py:7'' = ''C:/src/main.py'' @ CHR '':'' # d \<and> CHR '':'' \<notin> set d
          \<and> ''C:/src/main.py'' \<noteq> [] \<and> parse_int d = Some 7 \<and> (0::int) < 7"
    by (rule exI [of _ "''7''"]) (simp add: parse_int_def digit_of_def)
  with location_parser_contract
    [of "''C:/src/main.py:7''" "\<lparr>path = ''C:/src/main.py'', line = 7\<rparr>"]
  show ?thesis by simp
qed

section \<open>The normalizer of section 4.3\<close>

lemma resolve_server_value_idem:
  "resolve_server_value t (resolve_server_value t v) = resolve_server_value t v"
  by (simp add: resolve_server_value_def server_timestamp_def)

lemma map_of_default_field:
  "map_of (default_field kv d) k =
     (case map_of d k of
        Some v \<Rightarrow> Some v
      | None \<Rightarrow> if k = fst kv \<and> map_of d (fst kv) = None then Some (snd kv) else None)"
  by (cases kv) (auto simp: default_field_def map_add_def split: option.splits)

lemma default_field_present: "map_of d (fst kv) \<noteq> None \<Longrightarrow> default_field kv d = d"
  by (auto simp: default_field_def)

lemma dom_default_field: "dom (map_of (default_field kv d)) = insert (fst kv) (dom (map_of d))"
  by (auto simp: dom_def map_of_default_field split: option.splits if_splits)

lemma fold_default_field_present:
  "\<forall>kv \<in> set defaults. map_of d (fst kv) \<noteq> None \<Longrightarrow> fold default_field defaults d = d"
  by (induction defaults) (simp_all add: default_field_present)

lemma dom_fold_default_field:
  "dom (map_of (fold default_field defaults d)) = fst ` set defaults \<union> dom (map_of d)"
  by (induction defaults arbitrary: d) (auto simp: dom_default_field)

lemma map_of_fold_default_field_keeps:
  "map_of d k = Some v \<Longrightarrow> map_of (fold default_field defaults d) k = Some v"
  by (induction defaults arbitrary: d) (simp_all add: map_of_default_field)

lemma map_of_resolved:
  "map_of (map (\<lambda>(k, v). (k, resolve_server_value t v)) d) k
     = map_option (resolve_server_value t) (map_of d k)"
  by (simp add: map_of_map)

lemma resolved_twice:
  "map (\<lambda>(k, v). (k, resolve_server_value t v))
       (map (\<lambda>(k, v). (k, resolve_server_value t v)) d)
     = map (\<lambda>(k, v). (k, resolve_server_value t v)) d"
  by (induction d) (auto simp: resolve_server_value_idem)

text \<open>
  C7. The normalizer of section 4.3 is idempotent: a well-formed raw record (one with
  an \<open>id\<close>) has a canonical record, and normalizing that canonical record again, for
  the same namespace, gives it back unchanged.
\<close>

theorem normalizer_idempotent:
  assumes "map_of x ''id'' \<noteq> None"
  shows "\<exists>c. spec_normalize_breakpoint t defaults ns (Some x) = Canonical c
           \<and> spec_normalize_breakpoint t defaults ns (Some c) = Canonical c"
proof -
  let ?b = "Bool (ns = FinalNamespace)"
  let ?d1 = "AList.update ''isFinalState'' ?b x"
  let ?d2 = "fold default_field defaults ?d1"
  let ?c = "map (\<lambda>(k, v). (k, resolve_server_value t v)) ?d2"
  have first: "spec_normalize_breakpoint t defaults ns (Some x) = Canonical ?c"
    using assms by (simp add: spec_normalize_breakpoint_def)
  have dom_c: "dom (map_of ?c) = dom (map_of ?d2)"
    by (auto simp: dom_def map_of_resolved)
  have dom_d2: "dom (map_of ?d2) = fst ` set defaults \<union> insert ''isFinalState'' (dom (map_of x))"
    by (simp add: dom_fold_default_field update_conv')
  have has_id: "map_of ?c ''id'' \<noteq> None"
    using assms dom_c dom_d2 by (auto simp: dom_def)
  have "map_of ?d1 ''isFinalState'' = Some ?b"
    by (simp add: update_conv')
  then have "map_of ?d2 ''isFinalState'' = Some ?b"
    by (rule map_of_fold_default_field_keeps)
  then have "map_of ?c ''isFinalState'' = Some ?b"
    unfolding map_of_resolved by (simp add: resolve_server_value_def server_timestamp_def)
  then have flag: "AList.update ''isFinalState'' ?b ?c = ?c"
    by (rule update_triv)
  have "\<forall>kv \<in> set defaults. map_of ?c (fst kv) \<noteq> None"
    using dom_c dom_d2 by (auto simp: dom_def)
  then have dflt: "fold default_field defaults ?c = ?c"
    by (rule fold_default_field_present)
  from has_id have no_id: "(map_of ?c ''id'' = None) = False"
    by simp
  have "spec_normalize_breakpoint t defaults ns (Some ?c) = Canonical ?c"
    by (simp only: spec_normalize_breakpoint_def option.case no_id if_False flag dflt
        resolved_twice)
  with first show ?thesis by blast
qed

theorem normalizer_idempotent_witness:
  "\<exists>c. spec_normalize_breakpoint 1700000000000 [(''expressions'', StrList [])] ActiveNamespace
          (Some [(''id'', Str ''b-1''), (''createTimeUnixMsec'', server_timestamp)]) = Canonical c
     \<and> spec_normalize_breakpoint 1700000000000 [(''expressions'', StrList [])] ActiveNamespace
          (Some c) = Canonical c"
  using normalizer_idempotent
    [of "[(''id'', Str ''b-1''), (''createTimeUnixMsec'', server_timestamp)]"
        1700000000000 "[(''expressions'', StrList [])]" ActiveNamespace]
  by simp

section \<open>The allocator of section 4.2 under concurrent use\<close>




lemma decimal_append:
  "decimal acc (xs @ ys) = (case decimal acc xs of None \<Rightarrow> None | Some m \<Rightarrow> decimal m ys)"
  by (induction xs arbitrary: acc) (auto split: option.splits)

lemma digit_of_digit_char: "k < 10 \<Longrightarrow> digit_of (digit_char k) = Some k"
proof -
  assume "k < 10"
  then have "k \<in> {0, 1, 2, 3, 4, 5, 6, 7, 8, 9}" by auto
  then show ?thesis
    by (auto simp: digit_of_def digit_char_def)
qed

lemma decimal_decimal_string: "decimal 0 (decimal_string n) = Some n"
proof (induction n rule: decimal_string.induct)
  case (1 n)
  show ?case
  proof (cases "n < 10")
    case True
    then show ?thesis
      by (simp add: decimal_string.simps [of n] digit_of_digit_char)
  next
    case False
    with 1 have "decimal 0 (decimal_string (n div 10)) = Some (n div 10)" by simp
    with False show ?thesis
      by (simp add: decimal_string.simps [of n] decimal_append digit_of_digit_char)
  qed
qed

lemma decimal_string_inj: "decimal_string m = decimal_string n \<Longrightarrow> m = n"
  by (metis decimal_decimal_string option.inject)

lemma candidate_inj: "candidate prefix m = candidate prefix n \<Longrightarrow> m = n"
  by (simp add: candidate_def decimal_string_inj)

lemma allocator_step_cases:
  assumes "allocator_step prefix reachable p c = (p', c')"
  shows "(c' = c \<and> (p' = p \<or> (\<forall>a. p' \<noteq> Returned (Some a))))
       \<or> (\<exists>n. p' = Returned (Some (candidate prefix n)) \<and> c' = Some n \<and> sequence_of c < n
              \<and> (\<forall>a. p \<noteq> Returned (Some a)))"
  using assms
  by (cases p)
    (auto simp: allocator_step_def after_failure_def set_if_absent_or_matches_def
      sequence_of_def Let_def split: if_splits option.splits)


lemma alloc_invI:
  assumes "sequence_of c0 \<le> sequence_of c"
    and "\<And>i a. i < length ps \<Longrightarrow> ps ! i = Returned (Some a) \<Longrightarrow>
           \<exists>n. a = candidate prefix n \<and> sequence_of c0 < n \<and> n \<le> sequence_of c"
    and "\<And>i j a. i < length ps \<Longrightarrow> j < length ps \<Longrightarrow> i \<noteq> j \<Longrightarrow>
           ps ! i = Returned (Some a) \<Longrightarrow> ps ! j \<noteq> Returned (Some a)"
  shows "alloc_inv prefix c0 (c, ps)"
  unfolding alloc_inv_def prod.case using assms by blast

lemma alloc_inv_mono: "alloc_inv prefix c0 (c, ps) \<Longrightarrow> sequence_of c0 \<le> sequence_of c"
  unfolding alloc_inv_def prod.case by blast

lemma alloc_inv_returned:
  "alloc_inv prefix c0 (c, ps) \<Longrightarrow> i < length ps \<Longrightarrow> ps ! i = Returned (Some a) \<Longrightarrow>
     \<exists>n. a = candidate prefix n \<and> sequence_of c0 < n \<and> n \<le> sequence_of c"
  unfolding alloc_inv_def prod.case by blast

lemma alloc_inv_distinct:
  "alloc_inv prefix c0 (c, ps) \<Longrightarrow> i < length ps \<Longrightarrow> j < length ps \<Longrightarrow> i \<noteq> j \<Longrightarrow>
     ps ! i = Returned (Some a) \<Longrightarrow> ps ! j \<noteq> Returned (Some a)"
  unfolding alloc_inv_def prod.case by blast

text \<open>
  One store operation keeps the invariant when the counter does not fall and the
  allocator's new state is its old one, or no id, or a candidate above the old counter.
\<close>

lemma alloc_inv_update:
  assumes inv: "alloc_inv prefix c0 (c, ps)"
    and i: "i < length ps"
    and up: "sequence_of c \<le> sequence_of c'"
    and new: "\<And>a. p' = Returned (Some a) \<Longrightarrow>
                ps ! i = Returned (Some a)
                \<or> (\<exists>n. a = candidate prefix n \<and> sequence_of c < n \<and> n \<le> sequence_of c')"
  shows "alloc_inv prefix c0 (c', ps[i := p'])"
proof (rule alloc_invI)
  show "sequence_of c0 \<le> sequence_of c'"
    using alloc_inv_mono [OF inv] up by simp
next
  fix k a
  assume k: "k < length (ps[i := p'])" and r: "ps[i := p'] ! k = Returned (Some a)"
  have old: "\<exists>n. a = candidate prefix n \<and> sequence_of c0 < n \<and> n \<le> sequence_of c'"
    if "l < length ps" "ps ! l = Returned (Some a)" for l
  proof -
    from alloc_inv_returned [OF inv that] obtain n
      where "a = candidate prefix n" "sequence_of c0 < n" "n \<le> sequence_of c"
      by blast
    with up have "a = candidate prefix n \<and> sequence_of c0 < n \<and> n \<le> sequence_of c'"
      by simp
    then show ?thesis by blast
  qed
  show "\<exists>n. a = candidate prefix n \<and> sequence_of c0 < n \<and> n \<le> sequence_of c'"
  proof (cases "k = i")
    case False
    with k r have "k < length ps" "ps ! k = Returned (Some a)" by simp_all
    then show ?thesis by (rule old)
  next
    case True
    with k r have "p' = Returned (Some a)" by simp
    from new [OF this] show ?thesis
    proof
      assume "ps ! i = Returned (Some a)"
      with i show ?thesis by (rule old)
    next
      assume "\<exists>n. a = candidate prefix n \<and> sequence_of c < n \<and> n \<le> sequence_of c'"
      then obtain n where "a = candidate prefix n" "sequence_of c < n" "n \<le> sequence_of c'"
        by blast
      with alloc_inv_mono [OF inv]
      have "a = candidate prefix n \<and> sequence_of c0 < n \<and> n \<le> sequence_of c'"
        by simp
      then show ?thesis by blast
    qed
  qed
next
  fix k j a
  assume k: "k < length (ps[i := p'])" and j: "j < length (ps[i := p'])" and kj: "k \<noteq> j"
    and r: "ps[i := p'] ! k = Returned (Some a)"
  have fresh: "ps ! l \<noteq> Returned (Some a)"
    if "p' = Returned (Some a)" "l < length ps" "l \<noteq> i" for l
  proof
    assume l: "ps ! l = Returned (Some a)"
    from new [OF that(1)] show False
    proof
      assume "ps ! i = Returned (Some a)"
      with alloc_inv_distinct [OF inv that(2) i that(3) l] show False by simp
    next
      assume "\<exists>n. a = candidate prefix n \<and> sequence_of c < n \<and> n \<le> sequence_of c'"
      then obtain n where n: "a = candidate prefix n" "sequence_of c < n" by blast
      from alloc_inv_returned [OF inv that(2) l] obtain m
        where m: "a = candidate prefix m" "m \<le> sequence_of c" by blast
      from n(1) m(1) have "candidate prefix n = candidate prefix m" by simp
      then have "n = m" by (rule candidate_inj)
      with n(2) m(2) show False by simp
    qed
  qed
  show "ps[i := p'] ! j \<noteq> Returned (Some a)"
  proof (cases "k = i")
    case True
    with k r have p': "p' = Returned (Some a)" by simp
    from True kj j have "j < length ps" "j \<noteq> i" by simp_all
    with fresh [OF p'] show ?thesis by simp
  next
    case False
    with k r have old: "k < length ps" "ps ! k = Returned (Some a)" by simp_all
    show ?thesis
    proof (cases "j = i")
      case True
      show ?thesis
      proof
        assume "ps[i := p'] ! j = Returned (Some a)"
        with True i have "p' = Returned (Some a)" by simp
        from fresh [OF this old(1) False] old(2) show False by simp
      qed
    next
      case False
      with j have "j < length ps" "ps[i := p'] ! j = ps ! j" by simp_all
      with alloc_inv_distinct [OF inv old(1) this(1) kj old(2)] show ?thesis by simp
    qed
  qed
qed

lemma race_step_inv:
  assumes inv: "alloc_inv prefix c0 s"
  shows "alloc_inv prefix c0 (race_step prefix ev s)"
proof -
  obtain i reachable where ev: "ev = (i, reachable)" by (cases ev)
  obtain c ps where s: "s = (c, ps)" by (cases s)
  show ?thesis
  proof (cases "i < length ps")
    case False
    with inv show ?thesis by (simp add: race_step_def ev s)
  next
    case True
    obtain p' c' where st: "allocator_step prefix reachable (ps ! i) c = (p', c')"
      by (cases "allocator_step prefix reachable (ps ! i) c")
    have res: "race_step prefix ev s = (c', ps[i := p'])"
      using True by (simp add: race_step_def ev s st)
    from inv have inv': "alloc_inv prefix c0 (c, ps)" by (simp add: s)
    from allocator_step_cases [OF st]
    have up: "sequence_of c \<le> sequence_of c'"
      by (auto simp: sequence_of_def)
    have new: "ps ! i = Returned (Some a)
                \<or> (\<exists>n. a = candidate prefix n \<and> sequence_of c < n \<and> n \<le> sequence_of c')"
      if "p' = Returned (Some a)" for a
      using allocator_step_cases [OF st] that by (auto simp: sequence_of_def)
    show ?thesis
      unfolding res by (rule alloc_inv_update [OF inv' True up new])
  qed
qed


lemma race_inv: "alloc_inv prefix c0 s \<Longrightarrow> alloc_inv prefix c0 (race prefix schedule s)"
  unfolding race_def
  by (induction schedule arbitrary: s) (simp_all add: race_step_inv)

lemma race_length: "length (snd (race prefix schedule s)) = length (snd s)"
  unfolding race_def
proof (induction schedule arbitrary: s)
  case Nil
  show ?case by simp
next
  case (Cons ev schedule)
  have "length (snd (race_step prefix ev s)) = length (snd s)"
    by (cases ev; cases s) (simp add: race_step_def split: prod.splits)
  with Cons show ?case by simp
qed

lemma initial_inv: "alloc_inv prefix c0 (c0, replicate N (Ready attempts))"
  by (simp add: alloc_inv_def)

text \<open>
  A race of two allocators on a fresh counter: both read before either writes, the
  first write wins, the second allocator's write is refused and it retries.
\<close>

lemma decimal_string_1: "decimal_string (Suc 0) = ''1''"
  by (simp add: decimal_string.simps [of "Suc 0"] digit_char_def)

lemma decimal_string_2: "decimal_string (Suc (Suc 0)) = ''2''"
  by (simp add: decimal_string.simps [of "Suc (Suc 0)"] digit_char_def)

lemma sample_race:
  "race ''b-'' [(0, True), (1, True), (0, True), (1, True), (1, True), (1, True)]
     (None, replicate 2 (Ready 5))
   = (Some 2, [Returned (Some ''b-1''), Returned (Some ''b-2'')])"
proof -
  have two: "replicate 2 (Ready 5) = [Ready 5, Ready 5]"
    by (simp add: numeral_2_eq_2)
  show ?thesis
    unfolding two
    by (simp add: race_def race_step_def allocator_step_def set_if_absent_or_matches_def
        sequence_of_def after_failure_def candidate_def decimal_string_1 decimal_string_2)
qed

text \<open>
  C9. For any number of allocators racing on the same debuggee's counter, under any
  interleaving of their store operations and any store failures, two distinct
  allocators that return an id return different ids; each id is a candidate whose
  sequence number lies above the counter the race started from, so it repeats no id
  issued before either. An allocator that cannot claim a sequence number returns nil.
\<close>

theorem concurrent_allocation_distinct:
  assumes "i < N" and "j < N" and "i \<noteq> j"
    and "snd (race prefix schedule (c0, replicate N (Ready attempts))) ! i = Returned (Some a)"
    and "snd (race prefix schedule (c0, replicate N (Ready attempts))) ! j = Returned (Some b)"
  shows "a \<noteq> b
       \<and> (\<exists>m n. a = candidate prefix m \<and> b = candidate prefix n \<and> m \<noteq> n
              \<and> sequence_of c0 < m \<and> sequence_of c0 < n)"
proof -
  let ?s = "race prefix schedule (c0, replicate N (Ready attempts))"
  obtain c ps where s: "?s = (c, ps)" by (cases ?s)
  have "length (snd ?s) = N"
    using race_length [of prefix schedule "(c0, replicate N (Ready attempts))"] by simp
  then have len: "length ps = N" by (simp add: s)
  have "alloc_inv prefix c0 ?s"
    by (rule race_inv) (rule initial_inv)
  then have inv: "alloc_inv prefix c0 (c, ps)" by (simp add: s)
  from assms(4,5) have a: "ps ! i = Returned (Some a)" and b: "ps ! j = Returned (Some b)"
    by (simp_all add: s)
  from assms(1,2) len have i: "i < length ps" and j: "j < length ps" by simp_all
  from alloc_inv_distinct [OF inv i j assms(3) a] b have ne: "a \<noteq> b"
    by auto
  from alloc_inv_returned [OF inv i a] obtain m
    where m: "a = candidate prefix m" "sequence_of c0 < m" by blast
  from alloc_inv_returned [OF inv j b] obtain n
    where n: "b = candidate prefix n" "sequence_of c0 < n" by blast
  from ne m(1) n(1) have "m \<noteq> n" by auto
  with m n have "a = candidate prefix m \<and> b = candidate prefix n \<and> m \<noteq> n
              \<and> sequence_of c0 < m \<and> sequence_of c0 < n"
    by simp
  then have "\<exists>m n. a = candidate prefix m \<and> b = candidate prefix n \<and> m \<noteq> n
              \<and> sequence_of c0 < m \<and> sequence_of c0 < n"
    by blast
  with ne show ?thesis by simp
qed

theorem concurrent_allocation_distinct_witness:
  "snd (race ''b-'' [(0, True), (1, True), (0, True), (1, True), (1, True), (1, True)]
          (None, replicate 2 (Ready 5))) ! 0 = Returned (Some ''b-1'')
   \<and> snd (race ''b-'' [(0, True), (1, True), (0, True), (1, True), (1, True), (1, True)]
          (None, replicate 2 (Ready 5))) ! 1 = Returned (Some ''b-2'')
   \<and> ''b-1'' \<noteq> ''b-2''"
proof -
  have r0: "snd (race ''b-'' [(0, True), (1, True), (0, True), (1, True), (1, True), (1, True)]
          (None, replicate 2 (Ready 5))) ! 0 = Returned (Some ''b-1'')"
    unfolding sample_race by simp
  have r1: "snd (race ''b-'' [(0, True), (1, True), (0, True), (1, True), (1, True), (1, True)]
          (None, replicate 2 (Ready 5))) ! 1 = Returned (Some ''b-2'')"
    unfolding sample_race by simp
  have "(0::nat) < 2" "(1::nat) < 2" "(0::nat) \<noteq> 1" by simp_all
  from concurrent_allocation_distinct [OF this r0 r1] r0 r1 show ?thesis
    by blast
qed

end
